theory Spec2Isabelle
  imports Main "HOL-Library.Multiset"
begin

section \<open>Tables as the tracker sees them\<close>

text \<open>
  The model follows \<^verbatim>\<open>src/src/DataFrameChangeTracker.py\<close> (the class with
  \<^verbatim>\<open>compare_df\<close>, \<^verbatim>\<open>_find_dataframe_arg\<close>, \<^verbatim>\<open>_print_content_changes\<close>,
  \<^verbatim>\<open>analyze_dataframe_changes\<close> and \<^verbatim>\<open>track_dataframe_changes\<close>);
  \<^verbatim>\<open>src/DataFrameChangeTracker.py\<close> holds the same steps written out inside one
  wrapper, with a dictionary for the report.

  The tracker works on pandas tables. Only the operations it calls are modelled:
  \<^verbatim>\<open>len(df)\<close>, \<^verbatim>\<open>df.columns\<close>, \<^verbatim>\<open>df[col]\<close>, \<^verbatim>\<open>.dtype\<close>, \<^verbatim>\<open>.equals\<close>,
  \<^verbatim>\<open>df.index.intersection\<close>, \<^verbatim>\<open>df.loc[rows, col]\<close>, elementwise \<^verbatim>\<open>!=\<close> and
  \<^verbatim>\<open>.any()\<close>. A cell is a whole number, a text or the missing marker (NaN); a column
  carries its declared datatype next to its cells, so the same cells can sit under two
  datatypes (\<^verbatim>\<open>[1, 2]\<close> as \<^verbatim>\<open>int64\<close> and, after \<^verbatim>\<open>astype(float)\<close>, as
  \<^verbatim>\<open>float64\<close>). Row labels are integers.
\<close>

datatype cell = Num int | Str string | Missing

datatype dtype = Int64 | Float64 | Object

fun str_dtype :: "dtype \<Rightarrow> string" where
  "str_dtype Int64 = ''int64''"
| "str_dtype Float64 = ''float64''"
| "str_dtype Object = ''object''"

record column =
  col_name :: string
  col_dtype :: dtype
  col_values :: "cell list"

record dataframe =
  df_index :: "int list"
  df_columns :: "column list"

record series =
  s_index :: "int list"
  s_dtype :: dtype
  s_values :: "cell list"

text \<open>
  \<^verbatim>\<open>df[col]\<close> is a Series when one column carries the name and a DataFrame when
  several do.
\<close>

datatype item = ASeries series | AFrame dataframe

datatype error = AttributeError | KeyError | ValueError | IndexingError | Raised string

definition names :: "dataframe \<Rightarrow> string list" where
  "names df = map col_name (df_columns df)"

definition len :: "dataframe \<Rightarrow> int" where
  "len df = int (length (df_index df))"

definition getitem :: "dataframe \<Rightarrow> string \<Rightarrow> error + item" where
  "getitem df col =
     (case filter (\<lambda>c. col_name c = col) (df_columns df) of
        [] \<Rightarrow> Inl KeyError
      | [c] \<Rightarrow> Inr (ASeries \<lparr>s_index = df_index df, s_dtype = col_dtype c,
                              s_values = col_values c\<rparr>)
      | c # d # cs \<Rightarrow> Inr (AFrame \<lparr>df_index = df_index df, df_columns = c # d # cs\<rparr>))"

text \<open>A DataFrame has no attribute \<^verbatim>\<open>dtype\<close>.\<close>

fun item_dtype :: "item \<Rightarrow> error + dtype" where
  "item_dtype (ASeries s) = Inr (s_dtype s)"
| "item_dtype (AFrame d) = Inl AttributeError"

text \<open>
  \<^verbatim>\<open>equals\<close>: the same row labels in the same order, the same datatype and the same
  cells position by position, a missing cell being equal to a missing cell.
\<close>

fun equals :: "item \<Rightarrow> item \<Rightarrow> bool" where
  "equals (ASeries s) (ASeries t) =
     (s_index s = s_index t \<and> s_dtype s = s_dtype t \<and> s_values s = s_values t)"
| "equals (AFrame d) (AFrame e) = (df_index d = df_index e \<and> df_columns d = df_columns e)"
| "equals (ASeries s) (AFrame e) = False"
| "equals (AFrame d) (ASeries t) = False"

text \<open>
  A well-formed table names each column once, labels each row once and gives every
  column one cell per row.
\<close>

definition wf_df :: "dataframe \<Rightarrow> bool" where
  "wf_df df \<longleftrightarrow>
     distinct (names df) \<and> distinct (df_index df) \<and>
     list_all (\<lambda>c. length (col_values c) = length (df_index df)) (df_columns df)"

section \<open>Python sets\<close>

text \<open>
  A set is kept as its elements in the order they were added. Iterating a set
  (\<^verbatim>\<open>for x in s\<close>, \<^verbatim>\<open>list(s)\<close>) yields every element once, in an order the
  runtime chooses: the model takes that choice as the parameter \<open>iter\<close>, which may be
  any function that permutes its argument.
\<close>

type_synonym pyset = "string list"

definition iteration_order :: "(string list \<Rightarrow> string list) \<Rightarrow> bool" where
  "iteration_order iter \<longleftrightarrow> (\<forall>xs. mset (iter xs) = mset xs)"

definition set_add :: "pyset \<Rightarrow> string \<Rightarrow> pyset" where
  "set_add s x = (if x \<in> set s then s else s @ [x])"

definition set_of :: "string list \<Rightarrow> pyset" where
  "set_of xs = foldl set_add [] xs"

definition set_difference :: "(string list \<Rightarrow> string list) \<Rightarrow> pyset \<Rightarrow> pyset \<Rightarrow> pyset" where
  "set_difference iter s t = set_of (filter (\<lambda>x. x \<notin> set t) (iter s))"

definition set_intersection :: "(string list \<Rightarrow> string list) \<Rightarrow> pyset \<Rightarrow> pyset \<Rightarrow> pyset" where
  "set_intersection iter s t = set_of (filter (\<lambda>x. x \<in> set t) (iter s))"

text \<open>
  One iteration order, for concrete runs: the slot order of a hash table without
  collisions. CPython keeps a set in a table of 8 slots, moves it to 32 slots when the
  fifth element arrives, puts an element at its hash modulo the table size and iterates
  slot by slot; the hash of a text is drawn per process, here it is the parameter \<open>h\<close>.
\<close>

definition slot_order :: "(string \<Rightarrow> nat) \<Rightarrow> string list \<Rightarrow> string list" where
  "slot_order h xs = sort_key (\<lambda>x. h x mod (if length xs < 5 then 8 else 32)) xs"

definition code_sum :: "string \<Rightarrow> nat" where
  "code_sum s = sum_list (map of_char s)"

section \<open>The change report\<close>

record RowChanges =
  before :: int
  after :: int
  difference :: int

text \<open>The constructor with its \<^verbatim>\<open>__post_init__\<close>.\<close>

definition new_RowChanges :: "int \<Rightarrow> int \<Rightarrow> RowChanges" where
  "new_RowChanges b a = \<lparr>before = b, after = a, difference = a - b\<rparr>"

record ColumnChanges =
  added :: "string list"
  removed :: "string list"
  modified :: "string list"

record DataFrameChanges =
  rows :: RowChanges
  columns :: ColumnChanges
  schema_changes :: "(string \<times> string \<times> string) list"
  content_changes :: "string list"

text \<open>
  \<^verbatim>\<open>d[k] = v\<close> on a dictionary kept as a list of entries in insertion order; the
  value stored for a column is the pair of the labels \<^verbatim>\<open>before\<close> and \<^verbatim>\<open>after\<close>.
\<close>

definition dict_set :: "(string \<times> 'v) list \<Rightarrow> string \<Rightarrow> 'v \<Rightarrow> (string \<times> 'v) list" where
  "dict_set d k v =
     (if k \<in> fst ` set d then map (\<lambda>(k', v'). if k' = k then (k', v) else (k', v')) d
      else d @ [(k, v)])"

section \<open>compare_df\<close>

text \<open>
  One turn of the loop over the common columns. The state is the report under
  construction and the local set \<^verbatim>\<open>content_changes\<close>.
\<close>

definition compare_col ::
  "dataframe \<Rightarrow> dataframe \<Rightarrow> DataFrameChanges \<times> pyset \<Rightarrow> string
     \<Rightarrow> error + DataFrameChanges \<times> pyset" where
  "compare_col df_before df_after st col =
     (case getitem df_before col of Inl e \<Rightarrow> Inl e | Inr ib \<Rightarrow>
      case item_dtype ib of Inl e \<Rightarrow> Inl e | Inr before_dtype \<Rightarrow>
      case getitem df_after col of Inl e \<Rightarrow> Inl e | Inr ia \<Rightarrow>
      case item_dtype ia of Inl e \<Rightarrow> Inl e | Inr after_dtype \<Rightarrow>
      Inr (let changes = fst st;
               changes1 =
                 (if before_dtype \<noteq> after_dtype
                  then changes\<lparr>schema_changes :=
                         dict_set (schema_changes changes) col
                           (str_dtype before_dtype, str_dtype after_dtype)\<rparr>
                  else changes)
           in if \<not> equals ib ia
              then (changes1\<lparr>columns := (columns changes1)
                               \<lparr>modified := modified (columns changes1) @ [col]\<rparr>\<rparr>,
                    set_add (snd st) col)
              else (changes1, snd st)))"

fun compare_cols ::
  "dataframe \<Rightarrow> dataframe \<Rightarrow> string list \<Rightarrow> DataFrameChanges \<times> pyset
     \<Rightarrow> error + DataFrameChanges \<times> pyset" where
  "compare_cols df_before df_after [] st = Inr st"
| "compare_cols df_before df_after (col # cols) st =
     (case compare_col df_before df_after st col of
        Inl e \<Rightarrow> Inl e
      | Inr st' \<Rightarrow> compare_cols df_before df_after cols st')"

definition compare_df ::
  "(string list \<Rightarrow> string list) \<Rightarrow> dataframe \<Rightarrow> dataframe \<Rightarrow> error + DataFrameChanges" where
  "compare_df iter df_before df_after =
     (let changes = \<lparr>rows = new_RowChanges (len df_before) (len df_after),
                     columns = \<lparr>added = [], removed = [], modified = []\<rparr>,
                     schema_changes = [], content_changes = []\<rparr>;
          changes = changes\<lparr>columns := (columns changes)
                      \<lparr>added := iter (set_difference iter (set_of (names df_after))
                                                        (set_of (names df_before)))\<rparr>\<rparr>;
          changes = changes\<lparr>columns := (columns changes)
                      \<lparr>removed := iter (set_difference iter (set_of (names df_before))
                                                          (set_of (names df_after)))\<rparr>\<rparr>;
          common_cols = set_intersection iter (set_of (names df_before))
                                              (set_of (names df_after))
      in case compare_cols df_before df_after (iter common_cols) (changes, []) of
           Inl e \<Rightarrow> Inl e
         | Inr (changes, content_set) \<Rightarrow>
             Inr (changes\<lparr>content_changes := iter content_set\<rparr>))"

section \<open>Selecting and comparing rows\<close>

text \<open>
  The reporter reads both tables again through the row labels. What follows is what
  pandas does on tables whose row labels are unique (\<open>wf_df\<close>); every statement
  about the reporter is made for such tables.
\<close>

definition unique :: "int list \<Rightarrow> int list" where
  "unique xs = rev (remdups (rev xs))"

text \<open>\<^verbatim>\<open>index.intersection(other)\<close>: the labels of the left index that the right one has.\<close>

definition intersection :: "int list \<Rightarrow> int list \<Rightarrow> int list" where
  "intersection xs ys = filter (\<lambda>i. i \<in> set ys) (unique xs)"

fun lookup_rows :: "(int \<times> cell) list \<Rightarrow> int list \<Rightarrow> error + cell list" where
  "lookup_rows rs [] = Inr []"
| "lookup_rows rs (l # ls) =
     (case map_of rs l of
        None \<Rightarrow> Inl KeyError
      | Some v \<Rightarrow> (case lookup_rows rs ls of Inl e \<Rightarrow> Inl e | Inr vs \<Rightarrow> Inr (v # vs)))"

text \<open>
  \<^verbatim>\<open>df.loc[labels, col]\<close> with a list of labels: the cells of the column at these
  labels, in the order asked for. Where several columns carry the name the result is a
  DataFrame; its rows are left as they are, since the comparison below raises for a
  DataFrame whatever it holds.
\<close>

definition loc_labels :: "dataframe \<Rightarrow> int list \<Rightarrow> string \<Rightarrow> error + item" where
  "loc_labels df labels col =
     (case getitem df col of
        Inl e \<Rightarrow> Inl e
      | Inr (AFrame d) \<Rightarrow> Inr (AFrame d)
      | Inr (ASeries s) \<Rightarrow>
          (case lookup_rows (zip (s_index s) (s_values s)) labels of
             Inl e \<Rightarrow> Inl e
           | Inr vs \<Rightarrow> Inr (ASeries \<lparr>s_index = labels, s_dtype = s_dtype s, s_values = vs\<rparr>)))"

text \<open>
  Elementwise \<^verbatim>\<open>!=\<close>: a missing cell is unequal to every cell, a missing one
  included (\<^verbatim>\<open>NaN != NaN\<close>).
\<close>

definition cell_ne :: "cell \<Rightarrow> cell \<Rightarrow> bool" where
  "cell_ne x y \<longleftrightarrow> x = Missing \<or> y = Missing \<or> x \<noteq> y"

text \<open>
  \<^verbatim>\<open>left != right\<close> on two selections. Series compare only when identically
  labelled. With a DataFrame on either side the statement \<^verbatim>\<open>if changed_mask.any()\<close>
  fails at the latest (the truth value of a Series of several flags), the error being a
  ValueError as well.
\<close>

fun item_ne :: "item \<Rightarrow> item \<Rightarrow> error + (int \<times> bool) list" where
  "item_ne (ASeries s) (ASeries t) =
     (if s_index s = s_index t
      then Inr (zip (s_index s) (map2 cell_ne (s_values s) (s_values t)))
      else Inl ValueError)"
| "item_ne (ASeries s) (AFrame e) = Inl ValueError"
| "item_ne (AFrame d) i = Inl ValueError"

definition any_flag :: "(int \<times> bool) list \<Rightarrow> bool" where
  "any_flag changed_mask = list_ex snd changed_mask"

text \<open>
  A Boolean Series used as a row selector is aligned with the index of the table it
  selects from: a label of the table that the selector does not have makes the selector
  unalignable, and the selection raises (pandas' IndexingError; releases whose
  \<^verbatim>\<open>.loc\<close> picks the column before the rows fail an internal assertion at the same
  place, and the model keeps the one constructor for both).
\<close>

definition check_bool_indexer :: "int list \<Rightarrow> (int \<times> bool) list \<Rightarrow> error + bool list" where
  "check_bool_indexer index key =
     (if map fst key = index then Inr (map snd key)
      else if list_ex (\<lambda>l. l \<notin> fst ` set key) index then Inl IndexingError
      else Inr (map (\<lambda>l. case map_of key l of Some f \<Rightarrow> f | None \<Rightarrow> False) index))"

definition select_rows :: "bool list \<Rightarrow> series \<Rightarrow> series" where
  "select_rows flags s =
     \<lparr>s_index = map fst (filter snd (zip (s_index s) flags)),
      s_dtype = s_dtype s,
      s_values = map fst (filter snd (zip (s_values s) flags))\<rparr>"

text \<open>
  \<^verbatim>\<open>df.loc[changed_mask, col]\<close>. A DataFrame here (several columns of that name)
  cannot become a column of the comparison table: ValueError.
\<close>

definition loc_mask :: "dataframe \<Rightarrow> (int \<times> bool) list \<Rightarrow> string \<Rightarrow> error + series" where
  "loc_mask df changed_mask col =
     (case getitem df col of
        Inl e \<Rightarrow> Inl e
      | Inr (AFrame d) \<Rightarrow> Inl ValueError
      | Inr (ASeries s) \<Rightarrow>
          (case check_bool_indexer (s_index s) changed_mask of
             Inl e \<Rightarrow> Inl e
           | Inr flags \<Rightarrow> Inr (select_rows flags s)))"

definition value_at :: "series \<Rightarrow> int \<Rightarrow> cell" where
  "value_at s l = (case map_of (zip (s_index s) (s_values s)) l of Some v \<Rightarrow> v | None \<Rightarrow> Missing)"

text \<open>
  The index of \<^verbatim>\<open>pd.DataFrame({"Before": sb, "After": sa})\<close>: the common index of
  the two Series, or the sorted union of their labels where they are not the same.
\<close>

definition frame_index :: "series \<Rightarrow> series \<Rightarrow> int list" where
  "frame_index sb sa =
     (if s_index sb = s_index sa then s_index sb else sort (remdups (s_index sb @ s_index sa)))"

section \<open>The reporter\<close>

text \<open>
  What the reporter prints is kept as a list of events; a table is the list of its
  rows, each the cell before, the cell after and, where the table before has a column
  \<^verbatim>\<open>name\<close>, that column's cell. A printing function returns what it printed and
  the error it raised, if any.
\<close>

datatype event =
    FunctionLine string
  | RowsLine int int int
  | NoRowChangesLine
  | ContentChangesLine "string list"
  | ChangesInLine string
  | TableOut "(cell \<times> cell \<times> cell option) list"

definition comparison ::
  "dataframe \<Rightarrow> dataframe \<Rightarrow> (int \<times> bool) list \<Rightarrow> string
     \<Rightarrow> error + (cell \<times> cell \<times> cell option) list" where
  "comparison df_before df_after changed_mask col =
     (case loc_mask df_before changed_mask col of Inl e \<Rightarrow> Inl e | Inr sb \<Rightarrow>
      case loc_mask df_after changed_mask col of Inl e \<Rightarrow> Inl e | Inr sa \<Rightarrow>
      if ''name'' \<in> set (names df_before)
      then (case loc_mask df_before changed_mask ''name'' of
              Inl e \<Rightarrow> Inl e
            | Inr sn \<Rightarrow>
                Inr (map (\<lambda>l. (value_at sb l, value_at sa l, Some (value_at sn l)))
                       (frame_index sb sa)))
      else Inr (map (\<lambda>l. (value_at sb l, value_at sa l, None)) (frame_index sb sa)))"

text \<open>The body of the loop of \<^verbatim>\<open>_print_content_changes\<close>, for one column.\<close>

definition print_column :: "dataframe \<Rightarrow> dataframe \<Rightarrow> string \<Rightarrow> event list \<times> error option" where
  "print_column df_before df_after col =
     (let common_indices = intersection (df_index df_before) (df_index df_after) in
      case loc_labels df_before common_indices col of Inl e \<Rightarrow> ([], Some e) | Inr lb \<Rightarrow>
      case loc_labels df_after common_indices col of Inl e \<Rightarrow> ([], Some e) | Inr la \<Rightarrow>
      case item_ne lb la of Inl e \<Rightarrow> ([], Some e) | Inr changed_mask \<Rightarrow>
      if any_flag changed_mask
      then (case comparison df_before df_after changed_mask col of
              Inl e \<Rightarrow> ([ChangesInLine col], Some e)
            | Inr table \<Rightarrow> ([ChangesInLine col, TableOut table], None))
      else ([], None))"

fun print_content_changes ::
  "dataframe \<Rightarrow> dataframe \<Rightarrow> string list \<Rightarrow> event list \<times> error option" where
  "print_content_changes df_before df_after [] = ([], None)"
| "print_content_changes df_before df_after (col # cols) =
     (case print_column df_before df_after col of
        (out, Some e) \<Rightarrow> (out, Some e)
      | (out, None) \<Rightarrow>
          (case print_content_changes df_before df_after cols of
             (out', r) \<Rightarrow> (out @ out', r)))"

definition analyze_dataframe_changes ::
  "(string list \<Rightarrow> string list) \<Rightarrow> dataframe \<Rightarrow> dataframe \<Rightarrow> string option
     \<Rightarrow> event list \<times> error option" where
  "analyze_dataframe_changes iter df_before df_after function_name =
     (case compare_df iter df_before df_after of
        Inl e \<Rightarrow> ([], Some e)
      | Inr changes \<Rightarrow>
          (let out1 = (case function_name of
                         None \<Rightarrow> []
                       | Some n \<Rightarrow> if n \<noteq> [] then [FunctionLine n] else []);
               out2 = (if difference (rows changes) \<noteq> 0
                       then [RowsLine (before (rows changes)) (after (rows changes))
                               (difference (rows changes))]
                       else [NoRowChangesLine])
           in if content_changes changes \<noteq> []
              then (case print_content_changes df_before df_after (content_changes changes) of
                      (out3, r) \<Rightarrow>
                        (out1 @ out2 @ [ContentChangesLine (content_changes changes)] @ out3, r))
              else (out1 @ out2, None)))"

section \<open>The decorator\<close>

text \<open>
  An argument or a result is a table or some other value. The wrapped function takes
  the positional and the keyword arguments and returns a value or raises.
\<close>

datatype pyval = Frame dataframe | Other string

fun first_frame :: "pyval list \<Rightarrow> dataframe option" where
  "first_frame [] = None"
| "first_frame (Frame d # args) = Some d"
| "first_frame (Other v # args) = first_frame args"

definition find_dataframe_arg :: "pyval list \<Rightarrow> (string \<times> pyval) list \<Rightarrow> dataframe option" where
  "find_dataframe_arg args kwargs =
     (case first_frame args of
        Some d \<Rightarrow> Some d
      | None \<Rightarrow> first_frame (map snd kwargs))"

definition wrapper ::
  "(string list \<Rightarrow> string list) \<Rightarrow> string
     \<Rightarrow> (pyval list \<Rightarrow> (string \<times> pyval) list \<Rightarrow> error + pyval)
     \<Rightarrow> pyval list \<Rightarrow> (string \<times> pyval) list \<Rightarrow> (error + pyval) \<times> event list" where
  "wrapper iter func_name func args kwargs =
     (let df_before = find_dataframe_arg args kwargs in
      case func args kwargs of
        Inl e \<Rightarrow> (Inl e, [])
      | Inr result \<Rightarrow>
          (case (result, df_before) of
             (Frame df_after, Some b) \<Rightarrow>
               (case analyze_dataframe_changes iter b df_after (Some func_name) of
                  (out, Some e) \<Rightarrow> (Inl e, out)
                | (out, None) \<Rightarrow> (Inr result, out))
           | (Frame df_after, None) \<Rightarrow> (Inr result, [])
           | (Other v, d) \<Rightarrow> (Inr result, [])))"

section \<open>Notions used in the statements\<close>

text \<open>The Series that \<^verbatim>\<open>df[col]\<close> is for a column of a table.\<close>

definition series_of :: "dataframe \<Rightarrow> column \<Rightarrow> series" where
  "series_of df c = \<lparr>s_index = df_index df, s_dtype = col_dtype c, s_values = col_values c\<rparr>"

definition common_names :: "dataframe \<Rightarrow> dataframe \<Rightarrow> string set" where
  "common_names df_before df_after = set (names df_before) \<inter> set (names df_after)"

text \<open>The two tests of the loop body, as predicates on a column name.\<close>

definition changed :: "dataframe \<Rightarrow> dataframe \<Rightarrow> string \<Rightarrow> bool" where
  "changed df_before df_after col =
     (case getitem df_before col of Inl e \<Rightarrow> False | Inr ib \<Rightarrow>
      case getitem df_after col of Inl e \<Rightarrow> False | Inr ia \<Rightarrow> \<not> equals ib ia)"

definition retyped :: "dataframe \<Rightarrow> dataframe \<Rightarrow> string \<Rightarrow> bool" where
  "retyped df_before df_after col =
     (case getitem df_before col of Inl e \<Rightarrow> False | Inr ib \<Rightarrow>
      case item_dtype ib of Inl e \<Rightarrow> False | Inr bd \<Rightarrow>
      case getitem df_after col of Inl e \<Rightarrow> False | Inr ia \<Rightarrow>
      case item_dtype ia of Inl e \<Rightarrow> False | Inr ad \<Rightarrow> bd \<noteq> ad)"

text \<open>
  Equality of two columns as the specification words it: an identical row index and,
  position by position, equal cells, a missing cell being equal only to a missing one.
\<close>

fun missing_aware_eq :: "cell \<Rightarrow> cell \<Rightarrow> bool" where
  "missing_aware_eq Missing Missing = True"
| "missing_aware_eq Missing y = False"
| "missing_aware_eq x Missing = False"
| "missing_aware_eq x y = (x = y)"

definition spec_equal :: "series \<Rightarrow> series \<Rightarrow> bool" where
  "spec_equal s t \<longleftrightarrow>
     s_index s = s_index t \<and> list_all2 missing_aware_eq (s_values s) (s_values t)"

text \<open>The report for two tables without any change.\<close>

definition no_changes :: "int \<Rightarrow> DataFrameChanges" where
  "no_changes n =
     \<lparr>rows = \<lparr>before = n, after = n, difference = 0\<rparr>,
      columns = \<lparr>added = [], removed = [], modified = []\<rparr>,
      schema_changes = [], content_changes = []\<rparr>"

section \<open>Tables for concrete runs\<close>

definition mk_column :: "string \<Rightarrow> dtype \<Rightarrow> cell list \<Rightarrow> column" where
  "mk_column n d vs = \<lparr>col_name = n, col_dtype = d, col_values = vs\<rparr>"

text \<open>The two tables of the test fixtures.\<close>

definition sample_df1 :: dataframe where
  "sample_df1 =
     \<lparr>df_index = [0, 1, 2],
      df_columns =
        [mk_column ''id'' Int64 [Num 1, Num 2, Num 3],
         mk_column ''name'' Object [Str ''Alice'', Str ''Bob'', Str ''Charlie''],
         mk_column ''age'' Int64 [Num 25, Num 30, Num 35]]\<rparr>"

definition sample_df2 :: dataframe where
  "sample_df2 =
     \<lparr>df_index = [0, 1, 2],
      df_columns =
        [mk_column ''id'' Int64 [Num 1, Num 2, Num 4],
         mk_column ''name'' Object [Str ''Alice'', Str ''Bob'', Str ''David''],
         mk_column ''salary'' Int64 [Num 50000, Num 60000, Num 70000]]\<rparr>"

text \<open>The first table with its last row dropped.\<close>

definition sample_head :: dataframe where
  "sample_head =
     \<lparr>df_index = [0, 1],
      df_columns =
        [mk_column ''id'' Int64 [Num 1, Num 2],
         mk_column ''name'' Object [Str ''Alice'', Str ''Bob''],
         mk_column ''age'' Int64 [Num 25, Num 30]]\<rparr>"

text \<open>Five columns, of which the first and the last change.\<close>

definition five_before :: dataframe where
  "five_before =
     \<lparr>df_index = [0],
      df_columns =
        [mk_column ''a'' Int64 [Num 1], mk_column ''b'' Int64 [Num 1],
         mk_column ''c'' Int64 [Num 1], mk_column ''d'' Int64 [Num 1],
         mk_column ''h'' Int64 [Num 1]]\<rparr>"

definition five_after :: dataframe where
  "five_after =
     \<lparr>df_index = [0],
      df_columns =
        [mk_column ''a'' Int64 [Num 2], mk_column ''b'' Int64 [Num 1],
         mk_column ''c'' Int64 [Num 1], mk_column ''d'' Int64 [Num 1],
         mk_column ''h'' Int64 [Num 2]]\<rparr>"

text \<open>A column converted from \<^verbatim>\<open>int64\<close> to \<^verbatim>\<open>float64\<close>.\<close>

definition ints_before :: dataframe where
  "ints_before = \<lparr>df_index = [0, 1], df_columns = [mk_column ''value'' Int64 [Num 10, Num 20]]\<rparr>"

definition floats_after :: dataframe where
  "floats_after = \<lparr>df_index = [0, 1], df_columns = [mk_column ''value'' Float64 [Num 10, Num 20]]\<rparr>"

text \<open>The reports these tables give under \<open>slot_order code_sum\<close>.\<close>

definition five_report :: DataFrameChanges where
  "five_report =
     \<lparr>rows = \<lparr>before = 1, after = 1, difference = 0\<rparr>,
      columns = \<lparr>added = [], removed = [], modified = [''a'', ''h'']\<rparr>,
      schema_changes = [], content_changes = [''h'', ''a'']\<rparr>"

definition sample_report :: DataFrameChanges where
  "sample_report =
     \<lparr>rows = \<lparr>before = 3, after = 3, difference = 0\<rparr>,
      columns = \<lparr>added = [''salary''], removed = [''age''], modified = [''name'', ''id'']\<rparr>,
      schema_changes = [], content_changes = [''name'', ''id'']\<rparr>"

definition floats_report :: DataFrameChanges where
  "floats_report =
     \<lparr>rows = \<lparr>before = 2, after = 2, difference = 0\<rparr>,
      columns = \<lparr>added = [], removed = [], modified = [''value'']\<rparr>,
      schema_changes = [(''value'', ''int64'', ''float64'')], content_changes = [''value'']\<rparr>"

definition sample_report_back :: DataFrameChanges where
  "sample_report_back =
     \<lparr>rows = \<lparr>before = 3, after = 3, difference = 0\<rparr>,
      columns = \<lparr>added = [''age''], removed = [''salary''], modified = [''name'', ''id'']\<rparr>,
      schema_changes = [], content_changes = [''name'', ''id'']\<rparr>"

definition head_report :: DataFrameChanges where
  "head_report =
     \<lparr>rows = \<lparr>before = 3, after = 2, difference = - 1\<rparr>,
      columns = \<lparr>added = [], removed = [], modified = [''name'', ''id'', ''age'']\<rparr>,
      schema_changes = [], content_changes = [''name'', ''id'', ''age'']\<rparr>"

definition empty_df :: dataframe where
  "empty_df = \<lparr>df_index = [], df_columns = []\<rparr>"

text \<open>
  The flags the reporter computes for a common column of two well-formed tables: one
  per label of the index intersection.
\<close>

definition changed_rows :: "dataframe \<Rightarrow> column \<Rightarrow> dataframe \<Rightarrow> column \<Rightarrow> (int \<times> bool) list" where
  "changed_rows b cb a ca =
     map (\<lambda>l. (l, cell_ne (value_at (series_of b cb) l) (value_at (series_of a ca) l)))
       (intersection (df_index b) (df_index a))"

text \<open>
  A column with a missing cell, the same column with its rows in the other order, and
  the column with another second cell.
\<close>

definition nan_before :: dataframe where
  "nan_before = \<lparr>df_index = [0, 1], df_columns = [mk_column ''c'' Float64 [Missing, Num 1]]\<rparr>"

definition nan_reordered :: dataframe where
  "nan_reordered = \<lparr>df_index = [1, 0], df_columns = [mk_column ''c'' Float64 [Num 1, Missing]]\<rparr>"

definition nan_after :: dataframe where
  "nan_after = \<lparr>df_index = [0, 1], df_columns = [mk_column ''c'' Float64 [Missing, Num 2]]\<rparr>"

definition nan_report :: DataFrameChanges where
  "nan_report =
     \<lparr>rows = \<lparr>before = 2, after = 2, difference = 0\<rparr>,
      columns = \<lparr>added = [], removed = [], modified = [''c'']\<rparr>,
      schema_changes = [], content_changes = [''c'']\<rparr>"

text \<open>
  A function to wrap: it keeps the first two rows of its table and doubles every
  number, as
  \<^verbatim>\<open>def transform(df): df = df.head(2); return df.apply(double)\<close>
  would.
\<close>

fun double_cell :: "cell \<Rightarrow> cell" where
  "double_cell (Num n) = Num (2 * n)"
| "double_cell (Str s) = Str s"
| "double_cell Missing = Missing"

definition head_doubled :: "dataframe \<Rightarrow> dataframe" where
  "head_doubled df =
     \<lparr>df_index = take 2 (df_index df),
      df_columns =
        map (\<lambda>c. \<lparr>col_name = col_name c, col_dtype = col_dtype c,
                    col_values = map double_cell (take 2 (col_values c))\<rparr>) (df_columns df)\<rparr>"

fun transform :: "pyval list \<Rightarrow> (string \<times> pyval) list \<Rightarrow> error + pyval" where
  "transform (Frame df # args) kwargs = Inr (Frame (head_doubled df))"
| "transform args kwargs = Inl (Raised ''TypeError'')"

section \<open>Sets and their iteration\<close>

lemma set_foldl_set_add: "set (foldl set_add acc xs) = set acc \<union> set xs"
  by (induction xs arbitrary: acc) (auto simp: set_add_def)

lemma distinct_foldl_set_add: "distinct acc \<Longrightarrow> distinct (foldl set_add acc xs)"
  by (induction xs arbitrary: acc) (auto simp: set_add_def)

lemma foldl_set_add_distinct:
  "distinct xs \<Longrightarrow> set xs \<inter> set acc = {} \<Longrightarrow> foldl set_add acc xs = acc @ xs"
  by (induction xs arbitrary: acc) (auto simp: set_add_def)

lemma set_set_of: "set (set_of xs) = set xs"
  by (simp add: set_of_def set_foldl_set_add)

lemma distinct_set_of: "distinct (set_of xs)"
  by (simp add: set_of_def distinct_foldl_set_add)

lemma iter_set: "iteration_order iter \<Longrightarrow> set (iter xs) = set xs"
  unfolding iteration_order_def by (metis mset_eq_setD)

lemma iter_distinct: "iteration_order iter \<Longrightarrow> distinct (iter xs) = distinct xs"
  unfolding iteration_order_def by (metis mset_eq_imp_distinct_iff)

lemma iter_Nil: "iteration_order iter \<Longrightarrow> iter [] = []"
  unfolding iteration_order_def by (metis mset_zero_iff)

lemma set_set_difference:
  "iteration_order iter \<Longrightarrow> set (set_difference iter s t) = set s - set t"
  by (auto simp: set_difference_def set_set_of iter_set)

lemma set_set_intersection:
  "iteration_order iter \<Longrightarrow> set (set_intersection iter s t) = set s \<inter> set t"
  by (auto simp: set_intersection_def set_set_of iter_set)

lemma set_difference_self:
  assumes "iteration_order iter"
  shows "set_difference iter s s = []"
proof -
  have "filter (\<lambda>x. x \<notin> set s) (iter s) = []"
    by (simp add: filter_empty_conv iter_set [OF assms])
  then show ?thesis by (simp add: set_difference_def set_of_def)
qed

lemma slot_order_iteration: "iteration_order (slot_order h)"
  by (simp add: iteration_order_def slot_order_def)

section \<open>Columns by name\<close>

lemma filter_name_unique:
  "distinct (map col_name cs) \<Longrightarrow> c \<in> set cs \<Longrightarrow>
     filter (\<lambda>c'. col_name c' = col_name c) cs = [c::column]"
proof (induction cs)
  case Nil
  then show ?case by simp
next
  case (Cons d cs)
  show ?case
  proof (cases "d = c")
    case True
    from Cons.prems have "col_name d \<notin> col_name ` set cs" by simp
    with True have "\<forall>c' \<in> set cs. col_name c' \<noteq> col_name c" by (metis imageI)
    then have "filter (\<lambda>c'. col_name c' = col_name c) cs = []" by (simp add: filter_empty_conv)
    with True show ?thesis by simp
  next
    case False
    with Cons.prems have "c \<in> set cs" by simp
    moreover from this Cons.prems have "col_name d \<noteq> col_name c" by auto
    ultimately show ?thesis using Cons by simp
  qed
qed

lemma getitem_unique:
  "distinct (names df) \<Longrightarrow> c \<in> set (df_columns df) \<Longrightarrow>
     getitem df (col_name c) = Inr (ASeries (series_of df c))"
  by (simp add: getitem_def names_def filter_name_unique series_of_def)

lemma getitem_named:
  assumes "distinct (names df)" "col \<in> set (names df)"
  shows "\<exists>c \<in> set (df_columns df). col_name c = col \<and> getitem df col = Inr (ASeries (series_of df c))"
proof -
  from assms(2) obtain c where "c \<in> set (df_columns df)" "col_name c = col"
    by (auto simp: names_def)
  with getitem_unique [OF assms(1), of c] show ?thesis by auto
qed

lemma name_in_names: "c \<in> set (df_columns df) \<Longrightarrow> col_name c \<in> set (names df)"
  unfolding names_def by (metis image_eqI set_map)

lemma keys_dict_set: "fst ` set (dict_set d k v) = insert k (fst ` set d)"
  by (force simp: dict_set_def split: if_splits)

lemma equals_refl: "equals i i"
  by (cases i) simp_all

lemma not_changed_same: "\<not> changed a a col"
  by (simp add: changed_def equals_refl split: sum.splits)

lemma not_retyped_same: "\<not> retyped a a col"
  by (simp add: retyped_def split: sum.splits)

lemma missing_aware_eq_iff: "missing_aware_eq x y \<longleftrightarrow> x = y"
  by (cases x; cases y) simp_all

lemma spec_equal_iff: "spec_equal s t \<longleftrightarrow> s_index s = s_index t \<and> s_values s = s_values t"
proof -
  have "missing_aware_eq = (=)" by (intro ext) (simp add: missing_aware_eq_iff)
  then show ?thesis by (simp add: spec_equal_def list.rel_eq)
qed

section \<open>The loop over the common columns\<close>

lemma compare_col_cases:
  assumes "compare_col b a st col = Inr st'"
  obtains ib ia bd ad where
    "getitem b col = Inr ib" "item_dtype ib = Inr bd"
    "getitem a col = Inr ia" "item_dtype ia = Inr ad"
    "st' = (let changes = fst st;
                changes1 =
                 (if bd \<noteq> ad
                  then changes\<lparr>schema_changes :=
                         dict_set (schema_changes changes) col (str_dtype bd, str_dtype ad)\<rparr>
                  else changes)
            in if \<not> equals ib ia
               then (changes1\<lparr>columns := (columns changes1)
                                \<lparr>modified := modified (columns changes1) @ [col]\<rparr>\<rparr>,
                     set_add (snd st) col)
               else (changes1, snd st))"
  using assms unfolding compare_col_def
  by (auto split: sum.splits)

lemma compare_col_Inr:
  assumes "compare_col b a st col = Inr st'"
  shows "rows (fst st') = rows (fst st)"
    and "added (columns (fst st')) = added (columns (fst st))"
    and "removed (columns (fst st')) = removed (columns (fst st))"
    and "content_changes (fst st') = content_changes (fst st)"
    and "modified (columns (fst st')) = modified (columns (fst st)) @ filter (changed b a) [col]"
    and "snd st' = foldl set_add (snd st) (filter (changed b a) [col])"
    and "fst ` set (schema_changes (fst st')) \<subseteq> insert col (fst ` set (schema_changes (fst st)))"
proof -
  from assms obtain ib ia bd ad where g: "getitem b col = Inr ib" "getitem a col = Inr ia"
    and st': "st' = (let changes = fst st;
                changes1 =
                 (if bd \<noteq> ad
                  then changes\<lparr>schema_changes :=
                         dict_set (schema_changes changes) col (str_dtype bd, str_dtype ad)\<rparr>
                  else changes)
            in if \<not> equals ib ia
               then (changes1\<lparr>columns := (columns changes1)
                                \<lparr>modified := modified (columns changes1) @ [col]\<rparr>\<rparr>,
                     set_add (snd st) col)
               else (changes1, snd st))"
    by (rule compare_col_cases)
  show "rows (fst st') = rows (fst st)" by (simp add: st' Let_def)
  show "added (columns (fst st')) = added (columns (fst st))" by (simp add: st' Let_def)
  show "removed (columns (fst st')) = removed (columns (fst st))" by (simp add: st' Let_def)
  show "content_changes (fst st') = content_changes (fst st)" by (simp add: st' Let_def)
  show "modified (columns (fst st')) = modified (columns (fst st)) @ filter (changed b a) [col]"
    by (simp add: st' Let_def changed_def g)
  show "snd st' = foldl set_add (snd st) (filter (changed b a) [col])"
    by (simp add: st' Let_def changed_def g)
  show "fst ` set (schema_changes (fst st')) \<subseteq> insert col (fst ` set (schema_changes (fst st)))"
    by (auto simp: st' Let_def keys_dict_set)
qed

lemma compare_cols_Inr:
  assumes "compare_cols b a cols st = Inr st'"
  shows "rows (fst st') = rows (fst st) \<and>
     added (columns (fst st')) = added (columns (fst st)) \<and>
     removed (columns (fst st')) = removed (columns (fst st)) \<and>
     content_changes (fst st') = content_changes (fst st) \<and>
     modified (columns (fst st')) = modified (columns (fst st)) @ filter (changed b a) cols \<and>
     snd st' = foldl set_add (snd st) (filter (changed b a) cols) \<and>
     fst ` set (schema_changes (fst st')) \<subseteq> set cols \<union> fst ` set (schema_changes (fst st))"
  using assms
proof (induction cols arbitrary: st)
  case Nil
  then show ?case by simp
next
  case (Cons col cols)
  from Cons.prems obtain st1 where 1: "compare_col b a st col = Inr st1"
    and 2: "compare_cols b a cols st1 = Inr st'"
    by (auto split: sum.splits)
  note h = compare_col_Inr [OF 1]
  note ih = Cons.IH [OF 2]
  have "fst ` set (schema_changes (fst st')) \<subseteq> set (col # cols) \<union> fst ` set (schema_changes (fst st))"
    using ih h(7) unfolding list.set by blast
  moreover have "modified (columns (fst st')) = modified (columns (fst st)) @ filter (changed b a) (col # cols)"
    using ih h(5) by simp
  moreover have "snd st' = foldl set_add (snd st) (filter (changed b a) (col # cols))"
    using ih h(6) by simp
  ultimately show ?case
    using ih h(1-4) by simp
qed

lemma compare_col_schema_same:
  assumes "compare_col b a st col = Inr st'" "\<not> retyped b a col"
  shows "schema_changes (fst st') = schema_changes (fst st)"
  using assms(1)
proof (rule compare_col_cases)
  fix ib ia bd ad
  assume g: "getitem b col = Inr ib" "item_dtype ib = Inr bd" "getitem a col = Inr ia"
    "item_dtype ia = Inr ad"
  assume st': "st' = (let changes = fst st;
                changes1 =
                 (if bd \<noteq> ad
                  then changes\<lparr>schema_changes :=
                         dict_set (schema_changes changes) col (str_dtype bd, str_dtype ad)\<rparr>
                  else changes)
            in if \<not> equals ib ia
               then (changes1\<lparr>columns := (columns changes1)
                                \<lparr>modified := modified (columns changes1) @ [col]\<rparr>\<rparr>,
                     set_add (snd st) col)
               else (changes1, snd st))"
  from assms(2) g have "bd = ad" by (simp add: retyped_def)
  then show ?thesis by (simp add: st' Let_def)
qed

lemma compare_cols_schema_same:
  assumes "compare_cols b a cols st = Inr st'" "\<forall>col \<in> set cols. \<not> retyped b a col"
  shows "schema_changes (fst st') = schema_changes (fst st)"
  using assms
proof (induction cols arbitrary: st)
  case Nil
  then show ?case by simp
next
  case (Cons col cols)
  from Cons.prems obtain st1 where 1: "compare_col b a st col = Inr st1"
    and 2: "compare_cols b a cols st1 = Inr st'"
    by (auto split: sum.splits)
  from Cons.prems(2) have "\<not> retyped b a col" by simp
  from compare_col_schema_same [OF 1 this] Cons.IH [OF 2] Cons.prems(2)
  show ?case by simp
qed

lemma compare_col_total:
  assumes "distinct (names b)" "distinct (names a)" "col \<in> set (names b)" "col \<in> set (names a)"
  shows "\<exists>st'. compare_col b a st col = Inr st'"
proof -
  from getitem_named [OF assms(1,3)] obtain cb where "getitem b col = Inr (ASeries (series_of b cb))" by blast
  moreover from getitem_named [OF assms(2,4)] obtain ca where "getitem a col = Inr (ASeries (series_of a ca))" by blast
  ultimately show ?thesis by (simp add: compare_col_def Let_def)
qed

lemma compare_cols_total:
  assumes "distinct (names b)" "distinct (names a)" "set cols \<subseteq> set (names b) \<inter> set (names a)"
  shows "\<exists>st'. compare_cols b a cols st = Inr st'"
  using assms(3)
proof (induction cols arbitrary: st)
  case Nil
  then show ?case by simp
next
  case (Cons col cols)
  then have "col \<in> set (names b)" "col \<in> set (names a)" by auto
  from compare_col_total [OF assms(1,2) this] obtain st1 where "compare_col b a st col = Inr st1" by blast
  moreover from Cons have "\<exists>st'. compare_cols b a cols st1 = Inr st'" by simp
  ultimately show ?case by auto
qed

section \<open>The report of compare_df\<close>

lemma compare_df_loop:
  assumes "compare_df iter b a = Inr r"
  obtains st' where
    "compare_cols b a (iter (set_intersection iter (set_of (names b)) (set_of (names a))))
       (\<lparr>rows = new_RowChanges (len b) (len a),
         columns = \<lparr>added = iter (set_difference iter (set_of (names a)) (set_of (names b))),
                    removed = iter (set_difference iter (set_of (names b)) (set_of (names a))),
                    modified = []\<rparr>,
         schema_changes = [], content_changes = []\<rparr>, []) = Inr st'"
    "r = (fst st')\<lparr>content_changes := iter (snd st')\<rparr>"
  using assms by (auto simp: compare_df_def Let_def split: sum.splits)

lemma compare_df_Inr:
  assumes it: "iteration_order iter" and r: "compare_df iter b a = Inr r"
  defines "cols \<equiv> iter (set_intersection iter (set_of (names b)) (set_of (names a)))"
  shows "rows r = new_RowChanges (len b) (len a)"
    and "added (columns r) = iter (set_difference iter (set_of (names a)) (set_of (names b)))"
    and "removed (columns r) = iter (set_difference iter (set_of (names b)) (set_of (names a)))"
    and "modified (columns r) = filter (changed b a) cols"
    and "content_changes r = iter (filter (changed b a) cols)"
    and "fst ` set (schema_changes r) \<subseteq> common_names b a"
    and "distinct cols" and "set cols = common_names b a"
proof -
  let ?init = "\<lparr>rows = new_RowChanges (len b) (len a),
      columns = \<lparr>added = iter (set_difference iter (set_of (names a)) (set_of (names b))),
                 removed = iter (set_difference iter (set_of (names b)) (set_of (names a))),
                 modified = []\<rparr>,
      schema_changes = [], content_changes = []\<rparr>"
  from r obtain st' where loop: "compare_cols b a cols (?init, []) = Inr st'"
    and r': "r = (fst st')\<lparr>content_changes := iter (snd st')\<rparr>"
    by (auto simp: compare_df_def cols_def Let_def split: sum.splits)
  note h = compare_cols_Inr [OF loop]
  show dc: "distinct cols"
    by (simp add: cols_def set_intersection_def iter_distinct [OF it] distinct_set_of)
  show sc: "set cols = common_names b a"
    by (simp add: cols_def common_names_def iter_set [OF it] set_set_intersection [OF it] set_set_of)
  show "rows r = new_RowChanges (len b) (len a)" using h by (simp add: r')
  show "added (columns r) = iter (set_difference iter (set_of (names a)) (set_of (names b)))"
    using h by (simp add: r')
  show "removed (columns r) = iter (set_difference iter (set_of (names b)) (set_of (names a)))"
    using h by (simp add: r')
  show "modified (columns r) = filter (changed b a) cols" using h by (simp add: r')
  have "snd st' = filter (changed b a) cols"
    using h dc by (simp add: foldl_set_add_distinct)
  then show "content_changes r = iter (filter (changed b a) cols)" by (simp add: r')
  show "fst ` set (schema_changes r) \<subseteq> common_names b a"
    using h sc by (simp add: r')
qed

lemma compare_df_rows:
  assumes "compare_df iter b a = Inr r"
  shows "rows r = new_RowChanges (len b) (len a)"
  using assms
proof (rule compare_df_loop)
  fix st'
  assume "compare_cols b a (iter (set_intersection iter (set_of (names b)) (set_of (names a))))
       (\<lparr>rows = new_RowChanges (len b) (len a),
         columns = \<lparr>added = iter (set_difference iter (set_of (names a)) (set_of (names b))),
                    removed = iter (set_difference iter (set_of (names b)) (set_of (names a))),
                    modified = []\<rparr>,
         schema_changes = [], content_changes = []\<rparr>, []) = Inr st'"
    and "r = (fst st')\<lparr>content_changes := iter (snd st')\<rparr>"
  then show ?thesis using compare_cols_Inr by fastforce
qed

lemma compare_df_schema_same:
  assumes "compare_df iter a a = Inr r"
  shows "schema_changes r = []"
  using assms
proof (rule compare_df_loop)
  fix st'
  assume "compare_cols a a (iter (set_intersection iter (set_of (names a)) (set_of (names a))))
       (\<lparr>rows = new_RowChanges (len a) (len a),
         columns = \<lparr>added = iter (set_difference iter (set_of (names a)) (set_of (names a))),
                    removed = iter (set_difference iter (set_of (names a)) (set_of (names a))),
                    modified = []\<rparr>,
         schema_changes = [], content_changes = []\<rparr>, []) = Inr st'"
    and "r = (fst st')\<lparr>content_changes := iter (snd st')\<rparr>"
  then show ?thesis using compare_cols_schema_same [of a a _ _ st'] not_retyped_same by fastforce
qed

lemma compare_df_total_aux:
  assumes it: "iteration_order iter" and "distinct (names b)" "distinct (names a)"
  shows "\<exists>r. compare_df iter b a = Inr r"
proof -
  let ?cols = "iter (set_intersection iter (set_of (names b)) (set_of (names a)))"
  have "set ?cols \<subseteq> set (names b) \<inter> set (names a)"
    by (simp add: iter_set [OF it] set_set_intersection [OF it] set_set_of)
  from compare_cols_total [OF assms(2,3) this]
  show ?thesis
    by (auto simp: compare_df_def Let_def split: sum.splits prod.splits) (metis sum.distinct(1) old.sum.inject(2))
qed

lemma compare_df_same_aux:
  assumes it: "iteration_order iter" and r: "compare_df iter a a = Inr r"
  shows "r = no_changes (len a)"
proof -
  note h = compare_df_Inr [OF it r]
  have "rows r = \<lparr>before = len a, after = len a, difference = 0\<rparr>"
    by (simp add: h(1) new_RowChanges_def)
  moreover have "added (columns r) = []" "removed (columns r) = []"
    by (simp_all add: h(2,3) set_difference_self [OF it] iter_Nil [OF it])
  moreover have "modified (columns r) = []" "content_changes r = []"
    by (simp_all add: h(4,5) not_changed_same iter_Nil [OF it])
  moreover have "schema_changes r = []" by (rule compare_df_schema_same [OF r])
  ultimately show ?thesis by (simp add: no_changes_def)
qed

lemma no_columns_common: "df_columns b = [] \<Longrightarrow> common_names b a = {}"
  by (simp add: common_names_def names_def)

section \<open>Concrete runs\<close>

lemmas run_simps =
  compare_df_def compare_col_def getitem_def names_def len_def new_RowChanges_def
  set_of_def set_add_def set_difference_def set_intersection_def dict_set_def
  slot_order_def code_sum_def mk_column_def Let_def

lemma five_run: "compare_df (slot_order code_sum) five_before five_after = Inr five_report"
  by (simp add: run_simps five_before_def five_after_def five_report_def)

lemma sample_run: "compare_df (slot_order code_sum) sample_df1 sample_df2 = Inr sample_report"
  by (simp add: run_simps sample_df1_def sample_df2_def sample_report_def)

lemma sample_run_back:
  "compare_df (slot_order code_sum) sample_df2 sample_df1 = Inr sample_report_back"
  by (simp add: run_simps sample_df1_def sample_df2_def sample_report_back_def)

lemma floats_run: "compare_df (slot_order code_sum) ints_before floats_after = Inr floats_report"
  by (simp add: run_simps ints_before_def floats_after_def floats_report_def)

lemma head_run: "compare_df (slot_order code_sum) sample_df1 sample_head = Inr head_report"
  by (simp add: run_simps sample_df1_def sample_head_def head_report_def)

lemma empty_run_names: "distinct (names empty_df)"
  by (simp add: names_def empty_df_def)

lemma sample_names: "distinct (names sample_df1)" "distinct (names sample_df2)"
  by (simp_all add: names_def sample_df1_def sample_df2_def mk_column_def)

section \<open>Claims about the diff engine\<close>

text \<open>
  Claim C1 says that \<^verbatim>\<open>content_changes\<close> lists the changed columns in the order in
  which they were appended to \<^verbatim>\<open>columns.modified\<close>. The code collects them in a
  set and lists the set, so the order is the set's: with five common columns the loop
  runs over a table of 32 slots, the set of the two changed columns has 8 slots, and
  the names \<^verbatim>\<open>a\<close> and \<^verbatim>\<open>h\<close> come out of the two in opposite orders.
\<close>

theorem content_changes_order_counterexample:
  "iteration_order (slot_order code_sum) \<and>
   compare_df (slot_order code_sum) five_before five_after = Inr five_report \<and>
   modified (columns five_report) = [''a'', ''h''] \<and>
   content_changes five_report = [''h'', ''a''] \<and>
   content_changes five_report \<noteq> modified (columns five_report)"
  by (simp add: slot_order_iteration five_run) (simp add: five_report_def)

text \<open>
  Claim C1, amended: \<^verbatim>\<open>content_changes\<close> holds the names of
  \<^verbatim>\<open>columns.modified\<close>, each as often as there (once), in the order in which the
  set yields them.
\<close>

theorem content_changes_perm_modified:
  assumes "iteration_order iter" "compare_df iter df_before df_after = Inr r"
  shows "mset (content_changes r) = mset (modified (columns r))"
  using compare_df_Inr(4,5) [OF assms] assms(1) by (simp add: iteration_order_def)

theorem content_changes_perm_modified_witness:
  "iteration_order (slot_order code_sum) \<and>
   compare_df (slot_order code_sum) five_before five_after = Inr five_report \<and>
   mset (content_changes five_report) = mset (modified (columns five_report))"
  using content_changes_perm_modified [OF slot_order_iteration five_run]
  by (simp add: slot_order_iteration five_run)

text \<open>
  Claim C2 says that a common column is recorded as changed exactly when the two
  columns are unequal in row index or in some cell, missing cells at the same position
  being equal. \<^verbatim>\<open>equals\<close> also compares the datatypes: a column converted from
  \<^verbatim>\<open>int64\<close> to \<^verbatim>\<open>float64\<close> with the same index and the same cells is
  recorded as changed.
\<close>

theorem content_change_counterexample:
  "spec_equal (series_of ints_before (mk_column ''value'' Int64 [Num 10, Num 20]))
              (series_of floats_after (mk_column ''value'' Float64 [Num 10, Num 20])) \<and>
   compare_df (slot_order code_sum) ints_before floats_after = Inr floats_report \<and>
   ''value'' \<in> set (content_changes floats_report) \<and>
   ''value'' \<in> set (modified (columns floats_report))"
  by (simp add: floats_run)
     (simp add: floats_report_def spec_equal_def series_of_def mk_column_def
        ints_before_def floats_after_def)

text \<open>
  Claim C2, amended: for tables with unique column names, a common column is added to
  \<^verbatim>\<open>content_changes\<close> and appended to \<^verbatim>\<open>columns.modified\<close> if and only if the
  two columns differ in declared datatype, in row index, or in the cell at some
  position, a missing cell being equal only to a missing cell.
\<close>

theorem content_change_iff:
  assumes "iteration_order iter" "distinct (names df_before)" "distinct (names df_after)"
    and "cb \<in> set (df_columns df_before)" "ca \<in> set (df_columns df_after)"
    and "col_name cb = col_name ca"
  shows "\<exists>r. compare_df iter df_before df_after = Inr r \<and>
           (col_name cb \<in> set (content_changes r) \<longleftrightarrow>
              \<not> (spec_equal (series_of df_before cb) (series_of df_after ca) \<and>
                 col_dtype cb = col_dtype ca)) \<and>
           (col_name cb \<in> set (modified (columns r)) \<longleftrightarrow>
              \<not> (spec_equal (series_of df_before cb) (series_of df_after ca) \<and>
                 col_dtype cb = col_dtype ca))"
proof -
  from compare_df_total_aux [OF assms(1-3)] obtain r where r: "compare_df iter df_before df_after = Inr r" ..
  note h = compare_df_Inr [OF assms(1) r]
  have gb: "getitem df_before (col_name cb) = Inr (ASeries (series_of df_before cb))"
    by (rule getitem_unique [OF assms(2,4)])
  have ga: "getitem df_after (col_name cb) = Inr (ASeries (series_of df_after ca))"
    using getitem_unique [OF assms(3,5)] assms(6) by simp
  have ch: "changed df_before df_after (col_name cb) \<longleftrightarrow>
      \<not> (spec_equal (series_of df_before cb) (series_of df_after ca) \<and> col_dtype cb = col_dtype ca)"
    by (auto simp: changed_def gb ga spec_equal_iff series_of_def)
  have "col_name cb \<in> common_names df_before df_after"
    using name_in_names [OF assms(4)] name_in_names [OF assms(5)] assms(6)
    by (simp add: common_names_def)
  then have "col_name cb \<in> set (modified (columns r)) \<longleftrightarrow> changed df_before df_after (col_name cb)"
    by (simp add: h(4) h(8))
  moreover have "set (content_changes r) = set (modified (columns r))"
    by (simp add: h(4,5) iter_set [OF assms(1)])
  ultimately show ?thesis using r ch by simp
qed

theorem content_change_iff_witness:
  "iteration_order (slot_order code_sum) \<and>
   distinct (names ints_before) \<and> distinct (names floats_after) \<and>
   mk_column ''value'' Int64 [Num 10, Num 20] \<in> set (df_columns ints_before) \<and>
   mk_column ''value'' Float64 [Num 10, Num 20] \<in> set (df_columns floats_after) \<and>
   col_name (mk_column ''value'' Int64 [Num 10, Num 20]) =
     col_name (mk_column ''value'' Float64 [Num 10, Num 20]) \<and>
   (\<exists>r. compare_df (slot_order code_sum) ints_before floats_after = Inr r \<and>
        ''value'' \<in> set (content_changes r) \<and> ''value'' \<in> set (modified (columns r)))"
proof -
  have 1: "distinct (names ints_before)" "distinct (names floats_after)"
    by (simp_all add: names_def ints_before_def floats_after_def)
  have 2: "mk_column ''value'' Int64 [Num 10, Num 20] \<in> set (df_columns ints_before)"
    "mk_column ''value'' Float64 [Num 10, Num 20] \<in> set (df_columns floats_after)"
    by (simp_all add: ints_before_def floats_after_def)
  have 3: "col_name (mk_column ''value'' Int64 [Num 10, Num 20]) =
     col_name (mk_column ''value'' Float64 [Num 10, Num 20])"
    by (simp add: mk_column_def)
  from content_change_iff [OF slot_order_iteration 1 2 3]
  have "\<exists>r. compare_df (slot_order code_sum) ints_before floats_after = Inr r \<and>
        ''value'' \<in> set (content_changes r) \<and> ''value'' \<in> set (modified (columns r))"
    by (simp add: mk_column_def)
  with slot_order_iteration 1 2 3 show ?thesis by simp
qed

text \<open>
  Claim C3: comparing a table with itself gives a row difference of 0, no added,
  removed or modified column, no schema change and no content change.
\<close>

theorem compare_df_same:
  assumes "iteration_order iter" "distinct (names a)"
  shows "compare_df iter a a = Inr (no_changes (len a))"
proof -
  from compare_df_total_aux [OF assms(1,2,2)] obtain r where r: "compare_df iter a a = Inr r" ..
  from compare_df_same_aux [OF assms(1) r] r show ?thesis by simp
qed

theorem compare_df_same_witness:
  "iteration_order (slot_order code_sum) \<and> distinct (names sample_df1) \<and>
   compare_df (slot_order code_sum) sample_df1 sample_df1 = Inr (no_changes 3)"
  using compare_df_same [OF slot_order_iteration sample_names(1)]
  by (simp add: slot_order_iteration sample_names) (simp add: len_def sample_df1_def)

text \<open>
  Claim C4: the columns that \<^verbatim>\<open>compare_df(A, B)\<close> reports as added are, as a
  set, the columns that \<^verbatim>\<open>compare_df(B, A)\<close> reports as removed.
\<close>

theorem added_removed_swap:
  assumes "iteration_order iter" "compare_df iter a b = Inr r1" "compare_df iter b a = Inr r2"
  shows "set (added (columns r1)) = set (removed (columns r2))"
  using compare_df_Inr(2) [OF assms(1,2)] compare_df_Inr(3) [OF assms(1,3)] by simp

theorem added_removed_swap_witness:
  "iteration_order (slot_order code_sum) \<and>
   compare_df (slot_order code_sum) sample_df1 sample_df2 = Inr sample_report \<and>
   compare_df (slot_order code_sum) sample_df2 sample_df1 = Inr sample_report_back \<and>
   set (added (columns sample_report)) = set (removed (columns sample_report_back))"
  using added_removed_swap [OF slot_order_iteration sample_run sample_run_back]
  by (simp add: slot_order_iteration sample_run sample_run_back)

text \<open>
  Claim C5: the row difference of the report is the row count after minus the row
  count before, negative when rows were removed, and it is computed from the two counts
  stored beside it.
\<close>

theorem rows_difference:
  assumes "compare_df iter df_before df_after = Inr r"
  shows "before (rows r) = len df_before \<and> after (rows r) = len df_after \<and>
         difference (rows r) = len df_after - len df_before \<and>
         difference (rows r) = after (rows r) - before (rows r)"
  using compare_df_rows [OF assms] by (simp add: new_RowChanges_def)

theorem rows_difference_witness:
  "compare_df (slot_order code_sum) sample_df1 sample_head = Inr head_report \<and>
   difference (rows head_report) = len sample_head - len sample_df1 \<and>
   difference (rows head_report) = - 1"
proof -
  from rows_difference [OF head_run]
  have d: "difference (rows head_report) = len sample_head - len sample_df1"
    by (rule conjunct1 [OF conjunct2 [OF conjunct2]])
  have e: "difference (rows head_report) = - 1"
    by (simp add: head_report_def)
  from head_run d e show ?thesis by (intro conjI)
qed

text \<open>
  Claim C7: on tables with unique column names \<^verbatim>\<open>compare_df\<close> returns a report,
  whatever the row counts and however the schemas overlap; for two tables without
  columns the column lists, the schema changes and the content changes are empty, and
  for two tables without columns and rows the report is the empty one.
\<close>

theorem compare_df_total:
  assumes "iteration_order iter" "distinct (names df_before)" "distinct (names df_after)"
  shows "\<exists>r. compare_df iter df_before df_after = Inr r \<and>
           (df_columns df_before = [] \<and> df_columns df_after = [] \<longrightarrow>
              columns r = \<lparr>added = [], removed = [], modified = []\<rparr> \<and>
              schema_changes r = [] \<and> content_changes r = [] \<and>
              (df_index df_before = [] \<and> df_index df_after = [] \<longrightarrow> r = no_changes 0))"
proof -
  from compare_df_total_aux [OF assms] obtain r where r: "compare_df iter df_before df_after = Inr r" ..
  note h = compare_df_Inr [OF assms(1) r]
  note it = assms(1)
  {
    assume e: "df_columns df_before = []" "df_columns df_after = []"
    have n: "names df_before = []" "names df_after = []" by (simp_all add: names_def e)
    have "set (iter (set_intersection iter (set_of (names df_before)) (set_of (names df_after)))) = {}"
      using h(8) by (simp add: no_columns_common e)
    then have cols: "iter (set_intersection iter (set_of (names df_before)) (set_of (names df_after))) = []"
      by simp
    have 1: "added (columns r) = []" "removed (columns r) = []"
      by (simp_all add: h(2,3) n set_difference_self [OF it] iter_Nil [OF it])
    have 2: "modified (columns r) = []" "content_changes r = []"
      by (simp_all add: h(4,5) cols iter_Nil [OF it])
    have 3: "schema_changes r = []" using h(6) by (simp add: no_columns_common e)
    have 4: "df_index df_before = [] \<and> df_index df_after = [] \<longrightarrow> r = no_changes 0"
      using 1 2 3 h(1) by (simp add: no_changes_def new_RowChanges_def len_def)
    note 1 2 3 4
  }
  with r show ?thesis by auto
qed

theorem compare_df_total_witness:
  "iteration_order (slot_order code_sum) \<and> distinct (names empty_df) \<and>
   df_columns empty_df = [] \<and> df_index empty_df = [] \<and>
   compare_df (slot_order code_sum) empty_df empty_df = Inr (no_changes 0)"
  using compare_df_total [OF slot_order_iteration empty_run_names empty_run_names]
  by (auto simp: slot_order_iteration empty_run_names) (simp_all add: empty_df_def)

text \<open>
  Claim C10: in every report the added and the removed columns are disjoint from each
  other and from the common columns; the keys of \<^verbatim>\<open>schema_changes\<close>, the members
  of \<^verbatim>\<open>content_changes\<close> and the entries of \<^verbatim>\<open>columns.modified\<close> are common
  columns; and \<^verbatim>\<open>columns.modified\<close> holds no name twice.
\<close>

theorem report_invariant:
  assumes "iteration_order iter" "compare_df iter df_before df_after = Inr r"
  shows "set (added (columns r)) \<inter> set (removed (columns r)) = {} \<and>
         set (added (columns r)) \<inter> common_names df_before df_after = {} \<and>
         set (removed (columns r)) \<inter> common_names df_before df_after = {} \<and>
         fst ` set (schema_changes r) \<subseteq> common_names df_before df_after \<and>
         set (content_changes r) \<subseteq> common_names df_before df_after \<and>
         set (modified (columns r)) \<subseteq> common_names df_before df_after \<and>
         distinct (modified (columns r))"
proof -
  note h = compare_df_Inr [OF assms]
  note it = assms(1)
  have a: "set (added (columns r)) = set (names df_after) - set (names df_before)"
    by (simp add: h(2) iter_set [OF it] set_set_difference [OF it] set_set_of)
  have b: "set (removed (columns r)) = set (names df_before) - set (names df_after)"
    by (simp add: h(3) iter_set [OF it] set_set_difference [OF it] set_set_of)
  have m: "set (modified (columns r)) \<subseteq> common_names df_before df_after"
    using h(8) by (auto simp: h(4))
  have c: "set (content_changes r) \<subseteq> common_names df_before df_after"
    using h(8) by (auto simp: h(5) iter_set [OF it])
  have d: "distinct (modified (columns r))"
    using h(7) by (simp add: h(4))
  from a b m c d h(6) show ?thesis
    by (auto simp: common_names_def)
qed

theorem report_invariant_witness:
  "iteration_order (slot_order code_sum) \<and>
   compare_df (slot_order code_sum) sample_df1 sample_df2 = Inr sample_report \<and>
   set (added (columns sample_report)) \<inter> set (removed (columns sample_report)) = {} \<and>
   set (modified (columns sample_report)) \<subseteq> common_names sample_df1 sample_df2 \<and>
   distinct (modified (columns sample_report))"
  using report_invariant [OF slot_order_iteration sample_run]
  by (simp add: slot_order_iteration sample_run)

section \<open>Row selection on well-formed tables\<close>


lemma set_unique: "set (unique xs) = set xs"
  by (simp add: unique_def)

lemma set_intersection_labels: "set (intersection xs ys) = set xs \<inter> set ys"
  by (auto simp: intersection_def set_unique)


lemma lookup_rows_present:
  "\<forall>l \<in> set labels. map_of rs l \<noteq> None \<Longrightarrow>
   lookup_rows rs labels =
     Inr (map (\<lambda>l. case map_of rs l of Some v \<Rightarrow> v | None \<Rightarrow> Missing) labels)"
  by (induction labels) auto

lemma wf_df_column:
  assumes "wf_df df" "c \<in> set (df_columns df)"
  shows "length (col_values c) = length (df_index df)"
  using assms by (simp add: wf_df_def list_all_iff)

lemma wf_df_names: "wf_df df \<Longrightarrow> distinct (names df)"
  by (simp add: wf_df_def)


lemma loc_labels_wf:
  assumes wf: "wf_df df" and c: "c \<in> set (df_columns df)"
    and sub: "set labels \<subseteq> set (df_index df)"
  shows "loc_labels df labels (col_name c) =
     Inr (ASeries \<lparr>s_index = labels, s_dtype = col_dtype c,
                    s_values = map (value_at (series_of df c)) labels\<rparr>)"
proof -
  have g: "getitem df (col_name c) = Inr (ASeries (series_of df c))"
    by (rule getitem_unique [OF wf_df_names [OF wf] c])
  have len: "length (df_index df) = length (col_values c)"
    using wf_df_column [OF wf c] by simp
  have "\<forall>l \<in> set labels. map_of (zip (df_index df) (col_values c)) l \<noteq> None"
    using sub by (auto simp: map_of_zip_is_None [OF len])
  from lookup_rows_present [OF this]
  show ?thesis
    by (simp add: loc_labels_def g series_of_def value_at_def)
qed

lemma zip_map2_map:
  "zip labels (map2 h (map f labels) (map g labels)) = map (\<lambda>l. (l, h (f l) (g l))) labels"
  by (induction labels) auto

lemma any_flag_map: "any_flag (map (\<lambda>l. (l, P l)) labels) \<longleftrightarrow> (\<exists>l \<in> set labels. P l)"
  by (auto simp: any_flag_def list_ex_iff)







lemma print_column_wf:
  assumes "wf_df b" "wf_df a" "cb \<in> set (df_columns b)" "ca \<in> set (df_columns a)"
    and "col_name cb = col_name ca"
  shows "print_column b a (col_name cb) =
     (if any_flag (changed_rows b cb a ca)
      then (case comparison b a (changed_rows b cb a ca) (col_name cb) of
              Inl e \<Rightarrow> ([ChangesInLine (col_name cb)], Some e)
            | Inr table \<Rightarrow> ([ChangesInLine (col_name cb), TableOut table], None))
      else ([], None))"
proof -
  let ?ls = "intersection (df_index b) (df_index a)"
  have sb: "set ?ls \<subseteq> set (df_index b)" and sa: "set ?ls \<subseteq> set (df_index a)"
    by (simp_all add: set_intersection_labels)
  have lb: "loc_labels b ?ls (col_name cb) =
     Inr (ASeries \<lparr>s_index = ?ls, s_dtype = col_dtype cb,
                    s_values = map (value_at (series_of b cb)) ?ls\<rparr>)"
    by (rule loc_labels_wf [OF assms(1,3) sb])
  have la: "loc_labels a ?ls (col_name cb) =
     Inr (ASeries \<lparr>s_index = ?ls, s_dtype = col_dtype ca,
                    s_values = map (value_at (series_of a ca)) ?ls\<rparr>)"
    using loc_labels_wf [OF assms(2,4) sa] assms(5) by simp
  show ?thesis
    by (simp add: print_column_def lb la zip_map2_map changed_rows_def Let_def)
qed

section \<open>Concrete runs of the reporter\<close>

lemmas report_simps =
  print_column_def comparison_def loc_labels_def loc_mask_def check_bool_indexer_def
  select_rows_def value_at_def frame_index_def intersection_def unique_def any_flag_def
  cell_ne_def getitem_def names_def mk_column_def series_of_def Let_def

lemma nan_run: "compare_df (slot_order code_sum) nan_before nan_reordered = Inr nan_report"
  by (simp add: run_simps nan_before_def nan_reordered_def nan_report_def)

lemma nan_wf: "wf_df nan_before" "wf_df nan_reordered" "wf_df nan_after"
  by (simp_all add: wf_df_def names_def nan_before_def nan_reordered_def nan_after_def mk_column_def)

lemma sample_wf: "wf_df sample_df1" "wf_df sample_head"
  by (simp_all add: wf_df_def names_def sample_df1_def sample_head_def mk_column_def)

section \<open>Claims about the reporter\<close>

text \<open>
  Claim C6 says that a column of \<^verbatim>\<open>content_changes\<close> whose cells before and
  after are equal at every row label of the index intersection gives no per-row output.
  The reporter compares with \<^verbatim>\<open>!=\<close>, under which a missing cell differs from a
  missing cell: a column whose rows were only reordered, with a missing cell at label 0
  on both sides, is in \<^verbatim>\<open>content_changes\<close> for the index alone, has equal cells at
  both common labels, and gets a table with the row of the two missing cells.
\<close>

theorem equal_rows_reported_counterexample:
  "wf_df nan_before \<and> wf_df nan_reordered \<and>
   compare_df (slot_order code_sum) nan_before nan_reordered = Inr nan_report \<and>
   ''c'' \<in> set (content_changes nan_report) \<and>
   intersection (df_index nan_before) (df_index nan_reordered) = [0, 1] \<and>
   value_at (series_of nan_before (mk_column ''c'' Float64 [Missing, Num 1])) 0 =
     value_at (series_of nan_reordered (mk_column ''c'' Float64 [Num 1, Missing])) 0 \<and>
   value_at (series_of nan_before (mk_column ''c'' Float64 [Missing, Num 1])) 1 =
     value_at (series_of nan_reordered (mk_column ''c'' Float64 [Num 1, Missing])) 1 \<and>
   print_column nan_before nan_reordered ''c'' =
     ([ChangesInLine ''c'', TableOut [(Missing, Missing, None)]], None)"
  by (simp add: nan_wf nan_run)
     (simp add: report_simps nan_before_def nan_reordered_def nan_report_def)

text \<open>
  Claim C6, amended: for well-formed tables and a column of both, if at every row label
  of the index intersection the cell before and the cell after are present (not
  missing) and equal, then the reporter prints nothing for that column and raises
  nothing.
\<close>

theorem equal_present_rows_silent:
  assumes "wf_df df_before" "wf_df df_after"
    and "cb \<in> set (df_columns df_before)" "ca \<in> set (df_columns df_after)"
    and "col_name cb = col_name ca"
    and "\<forall>l \<in> set (df_index df_before) \<inter> set (df_index df_after).
           value_at (series_of df_before cb) l \<noteq> Missing \<and>
           value_at (series_of df_before cb) l = value_at (series_of df_after ca) l"
  shows "print_column df_before df_after (col_name cb) = ([], None)"
proof -
  have "\<forall>l \<in> set (intersection (df_index df_before) (df_index df_after)).
          \<not> cell_ne (value_at (series_of df_before cb) l) (value_at (series_of df_after ca) l)"
  proof
    fix l
    assume "l \<in> set (intersection (df_index df_before) (df_index df_after))"
    then have "l \<in> set (df_index df_before) \<inter> set (df_index df_after)"
      by (simp add: set_intersection_labels)
    with assms(6) have "value_at (series_of df_before cb) l \<noteq> Missing \<and>
        value_at (series_of df_before cb) l = value_at (series_of df_after ca) l"
      by blast
    then show "\<not> cell_ne (value_at (series_of df_before cb) l) (value_at (series_of df_after ca) l)"
      unfolding cell_ne_def by metis
  qed
  then have "\<not> any_flag (changed_rows df_before cb df_after ca)"
    by (simp add: changed_rows_def any_flag_map)
  then show ?thesis
    by (simp add: print_column_wf [OF assms(1-5)])
qed

theorem equal_present_rows_silent_witness:
  "wf_df sample_df1 \<and> wf_df sample_head \<and>
   mk_column ''id'' Int64 [Num 1, Num 2, Num 3] \<in> set (df_columns sample_df1) \<and>
   mk_column ''id'' Int64 [Num 1, Num 2] \<in> set (df_columns sample_head) \<and>
   compare_df (slot_order code_sum) sample_df1 sample_head = Inr head_report \<and>
   ''id'' \<in> set (content_changes head_report) \<and>
   print_column sample_df1 sample_head ''id'' = ([], None)"
proof -
  let ?cb = "mk_column ''id'' Int64 [Num 1, Num 2, Num 3]"
  let ?ca = "mk_column ''id'' Int64 [Num 1, Num 2]"
  have 1: "?cb \<in> set (df_columns sample_df1)" by (simp add: sample_df1_def)
  have 2: "?ca \<in> set (df_columns sample_head)" by (simp add: sample_head_def)
  have 3: "col_name ?cb = col_name ?ca" by (simp add: mk_column_def)
  have 4: "\<forall>l \<in> set (df_index sample_df1) \<inter> set (df_index sample_head).
           value_at (series_of sample_df1 ?cb) l \<noteq> Missing \<and>
           value_at (series_of sample_df1 ?cb) l = value_at (series_of sample_head ?ca) l"
    by (simp add: sample_df1_def sample_head_def value_at_def series_of_def mk_column_def)
  have 5: "''id'' \<in> set (content_changes head_report)" by (simp add: head_report_def)
  from equal_present_rows_silent [OF sample_wf 1 2 3 4]
  have "print_column sample_df1 sample_head ''id'' = ([], None)" by (simp add: mk_column_def)
  with sample_wf 1 2 5 head_run show ?thesis by simp
qed



section \<open>Claims about the decorator\<close>

lemma first_frame_None: "first_frame args = None \<longleftrightarrow> (\<forall>d. Frame d \<notin> set args)"
  by (induction args rule: first_frame.induct) auto

lemma wrapper_skips:
  assumes "find_dataframe_arg args kwargs = None \<or> (\<forall>d. func args kwargs \<noteq> Inr (Frame d))"
  shows "wrapper iter func_name func args kwargs = (func args kwargs, [])"
proof (cases "func args kwargs")
  case (Inl e)
  then show ?thesis by (simp add: wrapper_def)
next
  case (Inr result)
  show ?thesis
  proof (cases result)
    case (Frame d)
    with Inr assms have "find_dataframe_arg args kwargs = None" by auto
    with Inr Frame show ?thesis by (simp add: wrapper_def)
  next
    case (Other v)
    with Inr show ?thesis by (simp add: wrapper_def)
  qed
qed

lemma wrapper_returns:
  assumes "wrapper iter func_name func args kwargs = (Inr v, out)"
  shows "func args kwargs = Inr v"
  using assms
  by (auto simp: wrapper_def Let_def split: sum.splits pyval.splits option.splits prod.splits)

text \<open>
  Claim C8 says that the wrapper skips the analysis when no table is found among the
  arguments or the result is no table, and that in every case it returns exactly the
  result of the wrapped function. The first part holds (\<open>wrapper_skips\<close>), and
  whenever the wrapper returns a value it is the function's (\<open>wrapper_returns\<close>). It
  does not always return: the reporter builds its mask on the common row labels and
  then selects with it from the whole tables, which pandas refuses when a table has a
  row label the mask lacks. For a function that drops a row and changes a cell the
  wrapper raises IndexingError where the function returned a table.
\<close>

theorem wrapper_raises_indexing_error:
  "transform [Frame sample_df1] [] = Inr (Frame (head_doubled sample_df1)) \<and>
   wrapper (slot_order code_sum) ''transform'' transform [Frame sample_df1] [] =
     (Inl IndexingError,
      [FunctionLine ''transform'', RowsLine 3 2 (- 1),
       ContentChangesLine [''name'', ''id'', ''age''], ChangesInLine ''id''])"
  by (simp add: wrapper_def find_dataframe_arg_def analyze_dataframe_changes_def
        head_doubled_def sample_df1_def run_simps report_simps)

end
